theory Spec2Isabelle
  imports Main "HOL-Library.Word"
begin

unbundle bit_operations_syntax

section \<open>Data model\<close>

text \<open>
  A \<open>std::vector<char>\<close> or \<open>std::vector<uchar>\<close> is a list of 8-bit values.
  \<open>Serialization.cpp\<close> moves \<open>float\<close> and \<open>int\<close> fields with \<open>std::memcpy\<close> only, so a
  field is modelled by its object representation: the 32 bits that \<open>memcpy\<close> copies.
  No floating-point operation is applied to a field anywhere in the codec, and two
  fields are equal here when their 32 bits are.  \<open>sizeof(float)\<close> and \<open>sizeof(int)\<close>
  are 4, as on every platform OpenCV and ZeroMQ build for.
\<close>

type_synonym byte = "8 word"
type_synonym float32 = "32 word"
type_synonym int32 = "32 word"

text \<open>
  \<open>cv::KeyPoint\<close>: \<open>pt.x\<close>, \<open>pt.y\<close>, \<open>size\<close>, \<open>angle\<close>, \<open>response\<close> (floats), \<open>octave\<close>,
  \<open>class_id\<close> (ints).  The field \<open>size\<close> is named \<open>size_kp\<close> since \<open>size\<close> is a constant
  of HOL.
\<close>

record KeyPoint =
  pt_x :: float32
  pt_y :: float32
  size_kp :: float32
  angle :: float32
  response :: float32
  octave :: int32
  class_id :: int32

text \<open>
  The default-constructed \<open>cv::KeyPoint()\<close> of OpenCV: \<open>pt(0,0)\<close>, \<open>size(0)\<close>,
  \<open>angle(-1)\<close>, \<open>response(0)\<close>, \<open>octave(0)\<close>, \<open>class_id(-1)\<close>; \<open>-1.0f\<close> has the
  representation \<open>0xBF800000\<close>.
\<close>

definition KeyPoint_default :: KeyPoint where
  "KeyPoint_default =
     \<lparr>pt_x = 0, pt_y = 0, size_kp = 0, angle = 0xBF800000, response = 0,
      octave = 0, class_id = -1\<rparr>"

section \<open>Object representations and memcpy\<close>

text \<open>
  \<open>memcpy\<close> copies the four bytes of a field in the byte order of the host, which the
  source does not fix.  The host's order is a parameter of the model.
\<close>

datatype byte_order = LittleEndian | BigEndian

definition le_bytes :: "32 word \<Rightarrow> byte list" where
  "le_bytes w = [ucast w, ucast (drop_bit 8 w), ucast (drop_bit 16 w), ucast (drop_bit 24 w)]"

fun le_word :: "byte list \<Rightarrow> 32 word" where
  "le_word [b0, b1, b2, b3] =
     (ucast b0 OR push_bit 8 (ucast b1) OR push_bit 16 (ucast b2) OR push_bit 24 (ucast b3))"
| "le_word _ = 0"

text \<open>The bytes of an object in memory, lowest address first, and the value they hold.\<close>

definition object_repr :: "byte_order \<Rightarrow> 32 word \<Rightarrow> byte list" where
  "object_repr h w = (case h of LittleEndian \<Rightarrow> le_bytes w | BigEndian \<Rightarrow> rev (le_bytes w))"

definition object_value :: "byte_order \<Rightarrow> byte list \<Rightarrow> 32 word" where
  "object_value h bs = (case h of LittleEndian \<Rightarrow> le_word bs | BigEndian \<Rightarrow> le_word (rev bs))"

definition sizeof_float :: nat where
  "sizeof_float = 4"

definition sizeof_int :: nat where
  "sizeof_int = 4"

text \<open>\<open>const size_t SIZEOF_SERIALIZED_KEYPOINT = (5 * sizeof(float)) + (2 * sizeof(int));\<close>\<close>

definition SIZEOF_SERIALIZED_KEYPOINT :: nat where
  "SIZEOF_SERIALIZED_KEYPOINT = (5 * sizeof_float) + (2 * sizeof_int)"

text \<open>
  \<open>std::memcpy(ptr, &field, n)\<close> into a buffer: the \<open>n\<close> bytes at offset \<open>ptr\<close> are
  replaced.  The buffer keeps its length exactly when the write is inside it.
\<close>

definition memcpy_to :: "byte list \<Rightarrow> nat \<Rightarrow> byte list \<Rightarrow> byte list" where
  "memcpy_to buffer ptr src = take ptr buffer @ src @ drop (ptr + length src) buffer"

text \<open>\<open>std::memcpy(&field, ptr, n)\<close> out of a buffer: the \<open>n\<close> bytes at offset \<open>ptr\<close>.\<close>

definition memcpy_from :: "byte list \<Rightarrow> nat \<Rightarrow> nat \<Rightarrow> byte list" where
  "memcpy_from data ptr n = take n (drop ptr data)"

section \<open>Serialization.cpp\<close>

subsection \<open>serialize_keypoints\<close>

text \<open>
  One \<open>std::memcpy(ptr, &kp.f, sizeof(float)); ptr += sizeof(float);\<close> pair, on the
  state of the loop: the buffer and the offset \<open>ptr\<close> into it.
\<close>

definition put_float :: "byte_order \<Rightarrow> float32 \<Rightarrow> byte list \<times> nat \<Rightarrow> byte list \<times> nat" where
  "put_float h v = (\<lambda>(buffer, ptr). (memcpy_to buffer ptr (object_repr h v), ptr + sizeof_float))"

definition put_int :: "byte_order \<Rightarrow> int32 \<Rightarrow> byte list \<times> nat \<Rightarrow> byte list \<times> nat" where
  "put_int h v = (\<lambda>(buffer, ptr). (memcpy_to buffer ptr (object_repr h v), ptr + sizeof_int))"

text \<open>The body of the \<open>for (const auto& kp : keypoints)\<close> loop.\<close>

definition serialize_body :: "byte_order \<Rightarrow> KeyPoint \<Rightarrow> byte list \<times> nat \<Rightarrow> byte list \<times> nat" where
  "serialize_body h kp s0 =
     (let s1 = put_float h (pt_x kp) s0;
          s2 = put_float h (pt_y kp) s1;
          s3 = put_float h (size_kp kp) s2;
          s4 = put_float h (angle kp) s3;
          s5 = put_float h (response kp) s4;
          s6 = put_int h (octave kp) s5;
          s7 = put_int h (class_id kp) s6
      in s7)"

text \<open>
  The buffer is allocated first, zero-filled, with \<open>keypoints.size() * 28\<close> bytes; the
  loop then writes into it.
\<close>

definition serialize_keypoints :: "byte_order \<Rightarrow> KeyPoint list \<Rightarrow> byte list" where
  "serialize_keypoints h keypoints =
     (let buffer = replicate (length keypoints * SIZEOF_SERIALIZED_KEYPOINT) (0 :: byte)
      in fst (fold (serialize_body h) keypoints (buffer, 0)))"

subsection \<open>deserialize_keypoints\<close>

text \<open>
  The exceptions the three programs can see, all derived from \<open>std::exception\<close>, each
  with its \<open>what()\<close> text: \<open>std::runtime_error\<close> (thrown by
  \<open>deserialize_keypoints\<close>), \<open>cv::Exception\<close> (thrown by OpenCV) and \<open>zmq::error_t\<close>
  (thrown by cppzmq).
\<close>

datatype exn = runtime_error string | cv_Exception string | zmq_error_t string

fun what :: "exn \<Rightarrow> string" where
  "what (runtime_error m) = m"
| "what (cv_Exception m) = m"
| "what (zmq_error_t m) = m"

text \<open>
  One \<open>std::memcpy(&keypoints[i].f, ptr, sizeof(float)); ptr += sizeof(float);\<close> pair:
  the value read and the new offset.
\<close>

definition get_float :: "byte_order \<Rightarrow> byte list \<Rightarrow> nat \<Rightarrow> float32 \<times> nat" where
  "get_float h data ptr = (object_value h (memcpy_from data ptr sizeof_float), ptr + sizeof_float)"

definition get_int :: "byte_order \<Rightarrow> byte list \<Rightarrow> nat \<Rightarrow> int32 \<times> nat" where
  "get_int h data ptr = (object_value h (memcpy_from data ptr sizeof_int), ptr + sizeof_int)"

text \<open>
  The body of the \<open>for (size_t i = 0; i < num_keypoints; ++i)\<close> loop, on the vector of
  keypoints and the offset \<open>ptr\<close>.
\<close>

definition deserialize_body ::
  "byte_order \<Rightarrow> byte list \<Rightarrow> nat \<Rightarrow> KeyPoint list \<times> nat \<Rightarrow> KeyPoint list \<times> nat" where
  "deserialize_body h data i = (\<lambda>(keypoints, p0).
     (let (v1, p1) = get_float h data p0;
          (v2, p2) = get_float h data p1;
          (v3, p3) = get_float h data p2;
          (v4, p4) = get_float h data p3;
          (v5, p5) = get_float h data p4;
          (v6, p6) = get_int h data p5;
          (v7, p7) = get_int h data p6
      in (keypoints[i := (keypoints ! i)\<lparr>pt_x := v1, pt_y := v2, size_kp := v3, angle := v4,
                                         response := v5, octave := v6, class_id := v7\<rparr>],
          p7)))"

definition deserialize_keypoints :: "byte_order \<Rightarrow> byte list \<Rightarrow> exn + KeyPoint list" where
  "deserialize_keypoints h data =
     (if length data mod SIZEOF_SERIALIZED_KEYPOINT \<noteq> 0
      then Inl (runtime_error ''Invalid data size for keypoint deserialization.'')
      else
        (let num_keypoints = length data div SIZEOF_SERIALIZED_KEYPOINT;
             keypoints = replicate num_keypoints KeyPoint_default
         in Inr (fst (fold (deserialize_body h data) [0..<num_keypoints] (keypoints, 0)))))"

subsection \<open>The wire layout of one record\<close>

text \<open>
  The 28 bytes of one record as \<open>Serialization.hpp\<close> documents them: five floats, then
  two ints.
\<close>

definition record_bytes :: "byte_order \<Rightarrow> KeyPoint \<Rightarrow> byte list" where
  "record_bytes h kp =
     object_repr h (pt_x kp) @ object_repr h (pt_y kp) @ object_repr h (size_kp kp) @
     object_repr h (angle kp) @ object_repr h (response kp) @
     object_repr h (octave kp) @ object_repr h (class_id kp)"

definition record_of_bytes :: "byte_order \<Rightarrow> byte list \<Rightarrow> KeyPoint" where
  "record_of_bytes h bs =
     \<lparr>pt_x = object_value h (memcpy_from bs 0 4),
      pt_y = object_value h (memcpy_from bs 4 4),
      size_kp = object_value h (memcpy_from bs 8 4),
      angle = object_value h (memcpy_from bs 12 4),
      response = object_value h (memcpy_from bs 16 4),
      octave = object_value h (memcpy_from bs 20 4),
      class_id = object_value h (memcpy_from bs 24 4)\<rparr>"

text \<open>The \<open>i\<close>-th 28-byte chunk of a buffer.\<close>

definition chunk_at :: "byte list \<Rightarrow> nat \<Rightarrow> byte list" where
  "chunk_at data i = memcpy_from data (i * SIZEOF_SERIALIZED_KEYPOINT) SIZEOF_SERIALIZED_KEYPOINT"

section \<open>SafeQueue.hpp\<close>

text \<open>
  The queue as one thread at a time sees it, inside the mutex: \<open>push\<close> appends at the
  tail.  \<open>pop\<close> takes the head and always returns \<open>true\<close>; on the empty queue it waits
  on the condition variable.  The loops below model \<open>pop\<close> by matching on the queue:
  the head is popped, and on the empty queue the thread is blocked for good, since the
  finite input of the model holds no later \<open>push\<close>.
\<close>

definition SafeQueue_push :: "'a \<Rightarrow> 'a list \<Rightarrow> 'a list" where
  "SafeQueue_push v queue = queue @ [v]"

text \<open>How a thread function ends on a finite input.\<close>

datatype thread_status =
    Blocked   \<comment> \<open>waiting in a blocking call that no later event will release\<close>
  | Returned  \<comment> \<open>the thread function has returned: the thread is gone\<close>

section \<open>extractor/main.cpp\<close>

text \<open>
  \<open>struct ImageTask { filename; img_buffer; }\<close> and
  \<open>struct ProcessedTask { filename; img_buffer; keypoints_buffer; }\<close>.  The second struct
  repeats the two fields of the first, so it is written as its extension and the field
  names of the source serve for both.  A \<open>std::string\<close> is its sequence of bytes.
\<close>

record ImageTask =
  filename :: "byte list"
  img_buffer :: "byte list"

record ProcessedTask = ImageTask +
  keypoints_buffer :: "byte list"

text \<open>The lines the threads print to \<open>std::cout\<close> and \<open>std::cerr\<close>, by their content.\<close>

datatype log_line =
    Worker_failed_to_decode int "byte list"
      \<comment> \<open>\<open>[Worker id] Failed to decode filename\<close>\<close>
  | Worker_processed int nat
      \<comment> \<open>\<open>[Worker id] Processed ... (n keypoints)\<close>; the name printed is that of the
          moved-from \<open>result\<close>\<close>
  | Worker_error int string
      \<comment> \<open>\<open>[Worker id] Error: what\<close>\<close>
  | Sender_publishing
      \<comment> \<open>\<open>[Sender] Extractor publishing on ...\<close>\<close>
  | Sender_bind_error string
      \<comment> \<open>\<open>[Sender] Error binding ZMQ publisher: what\<close>\<close>
  | Sender_zmq_error string
      \<comment> \<open>\<open>[Sender] ZMQ error: what\<close>\<close>
  | Sender_error string
      \<comment> \<open>\<open>[Sender] Error: what\<close>\<close>
  | Extractor_expected_2_got_1
      \<comment> \<open>\<open>[Extractor] Warning: expected 2 parts, got 1. Skipping.\<close>\<close>
  | Extractor_received_more_than_2
      \<comment> \<open>\<open>[Extractor] Warning: received >2 parts. Flushing extras.\<close>\<close>

subsection \<open>worker_thread\<close>

text \<open>
  The OpenCV calls of the worker are outside the repository: they are parameters of the
  model.  Each returns a value or throws; \<open>imdecode\<close> reports unreadable data by
  returning an empty matrix.
\<close>

record ('mat, 'sift) opencv =
  SIFT_create :: "exn + 'sift"
  imdecode :: "byte list \<Rightarrow> exn + 'mat"
  Mat_empty :: "'mat \<Rightarrow> bool"
  cvtColor :: "'mat \<Rightarrow> exn + 'mat"
  detect :: "'sift \<Rightarrow> 'mat \<Rightarrow> exn + KeyPoint list"

text \<open>What a worker writes: the result queue it shares with the sender, and its log.\<close>

record worker_state =
  result_queue :: "ProcessedTask list"
  worker_log :: "log_line list"

text \<open>
  The body of \<open>while (work_queue.pop(task))\<close> for one popped task.  \<open>Inl e\<close>: the
  exception \<open>e\<close> leaves the body; nothing has been pushed or printed for the task by
  then.  \<open>continue\<close> and the normal end of the body both give \<open>Inr\<close>.
\<close>

definition process_task ::
  "('mat, 'sift) opencv \<Rightarrow> byte_order \<Rightarrow> 'sift \<Rightarrow> int \<Rightarrow> ImageTask \<Rightarrow> worker_state
     \<Rightarrow> exn + worker_state" where
  "process_task cv h sift worker_id task s =
     (case imdecode cv (img_buffer task) of
        Inl e \<Rightarrow> Inl e
      | Inr image_mat \<Rightarrow>
          if Mat_empty cv image_mat
          then Inr (s\<lparr>worker_log := worker_log s @
                      [Worker_failed_to_decode worker_id (filename task)]\<rparr>)
          else
            (case cvtColor cv image_mat of
               Inl e \<Rightarrow> Inl e
             | Inr gray \<Rightarrow>
                 (case detect cv sift gray of
                    Inl e \<Rightarrow> Inl e
                  | Inr keypoints \<Rightarrow>
                      (let kps_buffer = serialize_keypoints h keypoints;
                           result = \<lparr>filename = filename task, img_buffer = img_buffer task,
                                     keypoints_buffer = kps_buffer\<rparr>
                       in Inr (s\<lparr>result_queue := SafeQueue_push result (result_queue s),
                                 worker_log := worker_log s @
                                   [Worker_processed worker_id (length keypoints)]\<rparr>)))))"

text \<open>
  The \<open>while\<close> loop on the tasks this worker pops, in order.  It ends in two ways only:
  an exception leaves it (\<open>Some e\<close>), or the queue is empty and \<open>pop\<close> blocks (\<open>None\<close>).
  The tasks not popped are returned with the state.
\<close>

fun worker_loop ::
  "('mat, 'sift) opencv \<Rightarrow> byte_order \<Rightarrow> 'sift \<Rightarrow> int \<Rightarrow> ImageTask list \<Rightarrow> worker_state
     \<Rightarrow> exn option \<times> ImageTask list \<times> worker_state" where
  "worker_loop cv h sift worker_id [] s = (None, [], s)"
| "worker_loop cv h sift worker_id (task # work_queue) s =
     (case process_task cv h sift worker_id task s of
        Inl e \<Rightarrow> (Some e, work_queue, s)
      | Inr s' \<Rightarrow> worker_loop cv h sift worker_id work_queue s')"

text \<open>
  \<open>worker_thread\<close>: one \<open>try\<close> block holds \<open>cv::SIFT::create()\<close> and the whole loop; its
  handler prints the error with the worker's id, and the function then returns.  The
  parameter \<open>id\<close> and the local \<open>image\<close> are \<open>worker_id\<close> and \<open>image_mat\<close> here, both
  names being constants of HOL.
\<close>

definition worker_thread ::
  "('mat, 'sift) opencv \<Rightarrow> byte_order \<Rightarrow> int \<Rightarrow> ImageTask list \<Rightarrow> worker_state
     \<Rightarrow> thread_status \<times> ImageTask list \<times> worker_state" where
  "worker_thread cv h worker_id work_queue s =
     (case SIFT_create cv of
        Inl e \<Rightarrow>
          (Returned, work_queue,
           s\<lparr>worker_log := worker_log s @ [Worker_error worker_id (what e)]\<rparr>)
      | Inr sift \<Rightarrow>
          (case worker_loop cv h sift worker_id work_queue s of
             (Some e, work_queue', s') \<Rightarrow>
               (Returned, work_queue',
                s'\<lparr>worker_log := worker_log s' @ [Worker_error worker_id (what e)]\<rparr>)
           | (None, work_queue', s') \<Rightarrow> (Blocked, work_queue', s')))"

subsection \<open>sender_thread\<close>

datatype send_flags = none | sndmore

text \<open>
  The publisher socket: the frames sent so far, each with its flag, and what the
  transport will do, which the program does not decide: whether \<open>bind\<close> throws, and
  whether a later \<open>send\<close> throws (\<open>Some (n, e)\<close>: the call after \<open>n\<close> more successful ones
  throws \<open>e\<close>).
\<close>

record pub_socket =
  wire :: "(byte list \<times> send_flags) list"
  bind_error :: "exn option"
  send_error :: "(nat \<times> exn) option"

definition send :: "pub_socket \<Rightarrow> byte list \<Rightarrow> send_flags \<Rightarrow> exn option \<times> pub_socket" where
  "send publisher msg flags =
     (case send_error publisher of
        None \<Rightarrow> (None, publisher\<lparr>wire := wire publisher @ [(msg, flags)]\<rparr>)
      | Some (0, e) \<Rightarrow> (Some e, publisher\<lparr>send_error := None\<rparr>)
      | Some (Suc n, e) \<Rightarrow>
          (None, publisher\<lparr>wire := wire publisher @ [(msg, flags)], send_error := Some (n, e)\<rparr>))"

text \<open>
  The body of \<open>while (result_queue.pop(result))\<close>: three messages, three sends.  The
  loop runs on \<open>results\<close>, the content of the result queue.
\<close>

definition send_result :: "pub_socket \<Rightarrow> ProcessedTask \<Rightarrow> exn option \<times> pub_socket" where
  "send_result publisher result =
     (let name_msg = filename result;
          img_msg = img_buffer result;
          kps_msg = keypoints_buffer result
      in case send publisher name_msg sndmore of
           (Some e, p1) \<Rightarrow> (Some e, p1)
         | (None, p1) \<Rightarrow>
             (case send p1 img_msg sndmore of
                (Some e, p2) \<Rightarrow> (Some e, p2)
              | (None, p2) \<Rightarrow> send p2 kps_msg none))"

fun sender_loop ::
  "ProcessedTask list \<Rightarrow> pub_socket \<Rightarrow> exn option \<times> ProcessedTask list \<times> pub_socket" where
  "sender_loop [] publisher = (None, [], publisher)"
| "sender_loop (result # results) publisher =
     (case send_result publisher result of
        (Some e, p) \<Rightarrow> (Some e, results, p)
      | (None, p) \<Rightarrow> sender_loop results p)"

text \<open>
  \<open>sender_thread\<close>: a failed \<open>bind\<close> is printed and the function returns; otherwise one
  \<open>try\<close> block holds the loop, with a handler for \<open>zmq::error_t\<close> and one for every other
  \<open>std::exception\<close>.
\<close>

definition sender_thread ::
  "ProcessedTask list \<Rightarrow> pub_socket \<Rightarrow> log_line list
     \<Rightarrow> thread_status \<times> ProcessedTask list \<times> pub_socket \<times> log_line list" where
  "sender_thread results publisher out =
     (case bind_error publisher of
        Some e \<Rightarrow> (Returned, results, publisher, out @ [Sender_bind_error (what e)])
      | None \<Rightarrow>
          (case sender_loop results publisher of
             (Some (zmq_error_t m), rq, p) \<Rightarrow>
               (Returned, rq, p, out @ [Sender_publishing, Sender_zmq_error m])
           | (Some e, rq, p) \<Rightarrow>
               (Returned, rq, p, out @ [Sender_publishing, Sender_error (what e)])
           | (None, rq, p) \<Rightarrow> (Blocked, rq, p, out @ [Sender_publishing])))"

text \<open>The three frames of one result, as the logger expects them.\<close>

definition result_frames :: "ProcessedTask \<Rightarrow> (byte list \<times> send_flags) list" where
  "result_frames r =
     [(filename r, sndmore), (img_buffer r, sndmore), (keypoints_buffer r, none)]"

subsection \<open>main: the receive loop\<close>

text \<open>
  What one \<open>subscriber.recv\<close> call finds on the socket: a frame, with the flag that
  \<open>rcvmore\<close> reports after it, or nothing (\<open>recv\<close> returns no value).  On a socket with no
  event left, \<open>recv\<close> blocks.
\<close>

datatype event = Frame "byte list" bool | Eagain

record extractor_state =
  sub_pending :: "event list"
  sub_rcvmore :: bool
  work_queue :: "ImageTask list"
  main_log :: "log_line list"

definition recv :: "extractor_state \<Rightarrow> (byte list option \<times> extractor_state) option" where
  "recv s =
     (case sub_pending s of
        [] \<Rightarrow> None
      | Frame msg m # evs \<Rightarrow> Some (Some msg, s\<lparr>sub_pending := evs, sub_rcvmore := m\<rparr>)
      | Eagain # evs \<Rightarrow> Some (None, s\<lparr>sub_pending := evs\<rparr>))"

text \<open>\<open>while (subscriber.get(zmq::sockopt::rcvmore)) { subscriber.recv(temp); }\<close>\<close>

function flush :: "extractor_state \<Rightarrow> extractor_state" where
  "flush s =
     (if sub_rcvmore s
      then (case recv s of None \<Rightarrow> s | Some (temp, s') \<Rightarrow> flush s')
      else s)"
  by pat_completeness auto
termination
  by (relation "measure (\<lambda>s. length (sub_pending s))")
    (auto simp: recv_def split: list.splits event.splits)

declare flush.simps [simp del]

text \<open>
  The \<open>while (true)\<close> loop of \<open>main\<close>.  It returns the state in which \<open>recv\<close> blocks.
\<close>

function main_loop :: "extractor_state \<Rightarrow> extractor_state" where
  "main_loop s =
     (case recv s of
        None \<Rightarrow> s
      | Some (recv_name, s1) \<Rightarrow>
          (case recv_name of
             None \<Rightarrow> main_loop s1
           | Some name_msg \<Rightarrow>
               if \<not> sub_rcvmore s1
               then main_loop (s1\<lparr>main_log := main_log s1 @ [Extractor_expected_2_got_1]\<rparr>)
               else
                 (case recv s1 of
                    None \<Rightarrow> s1
                  | Some (recv_img, s2) \<Rightarrow>
                      (case recv_img of
                         None \<Rightarrow> main_loop s2
                       | Some img_msg \<Rightarrow>
                           if sub_rcvmore s2
                           then main_loop
                                  (flush (s2\<lparr>main_log := main_log s2 @
                                              [Extractor_received_more_than_2]\<rparr>))
                           else
                             (let task = \<lparr>filename = name_msg, img_buffer = img_msg\<rparr>
                              in main_loop
                                   (s2\<lparr>work_queue := SafeQueue_push task (work_queue s2)\<rparr>))))))"
  by pat_completeness auto
termination
proof (relation "measure (\<lambda>s. length (sub_pending s))")
  have r: "length (sub_pending s') < length (sub_pending s)" if "recv s = Some (x, s')"
    for s s' x
    using that by (auto simp: recv_def split: list.splits event.splits)
  have f: "length (sub_pending (flush s)) \<le> length (sub_pending s)" for s
  proof (induction s rule: flush.induct)
    case (1 s)
    show ?case
    proof (cases "sub_rcvmore s")
      case False
      then show ?thesis by (simp add: flush.simps)
    next
      case True
      show ?thesis
      proof (cases "recv s")
        case None
        with True show ?thesis by (simp add: flush.simps)
      next
        case (Some a)
        obtain temp s' where a: "a = (temp, s')" by (cases a)
        from "1.IH" [OF True Some [unfolded a] refl] r [OF Some [unfolded a]]
        show ?thesis using True Some a by (simp add: flush.simps [of s])
      qed
    qed
  qed
  show "wf (measure (\<lambda>s. length (sub_pending s)))" by simp
  fix s x2 recv_name s1
  assume a: "recv s = Some x2" "(recv_name, s1) = x2"
  then have s1: "length (sub_pending s1) < length (sub_pending s)"
    using r [of s recv_name s1] by simp
  {
    assume "recv_name = None"
    show "(s1, s) \<in> measure (\<lambda>s. length (sub_pending s))" using s1 by simp
  }
  fix name_msg
  assume n: "recv_name = Some name_msg"
  {
    assume "\<not> sub_rcvmore s1"
    show "(s1\<lparr>main_log := main_log s1 @ [Extractor_expected_2_got_1]\<rparr>, s)
            \<in> measure (\<lambda>s. length (sub_pending s))"
      using s1 by simp
  }
  fix x2a recv_img s2
  assume b: "\<not> \<not> sub_rcvmore s1" "recv s1 = Some x2a" "(recv_img, s2) = x2a"
  then have s2: "length (sub_pending s2) < length (sub_pending s)"
    using r [of s1 recv_img s2] s1 by simp
  {
    assume "recv_img = None"
    show "(s2, s) \<in> measure (\<lambda>s. length (sub_pending s))" using s2 by simp
  }
  fix img_msg
  assume i: "recv_img = Some img_msg"
  {
    assume "sub_rcvmore s2"
    show "(flush (s2\<lparr>main_log := main_log s2 @ [Extractor_received_more_than_2]\<rparr>), s)
            \<in> measure (\<lambda>s. length (sub_pending s))"
      using s2 f [of "s2\<lparr>main_log := main_log s2 @ [Extractor_received_more_than_2]\<rparr>"]
      by simp
  }
  {
    fix task
    assume "\<not> sub_rcvmore s2" "task = \<lparr>filename = name_msg, img_buffer = img_msg\<rparr>"
    show "(s2\<lparr>work_queue := SafeQueue_push task (work_queue s2)\<rparr>, s)
            \<in> measure (\<lambda>s. length (sub_pending s))"
      using s2 by simp
  }
qed

declare main_loop.simps [simp del]

text \<open>
  The events of one inbound message on the socket: ZeroMQ delivers the frames of a
  message together, each but the last with the more flag.
\<close>

fun message_events :: "byte list list \<Rightarrow> event list" where
  "message_events [] = []"
| "message_events [msg] = [Frame msg False]"
| "message_events (msg # msgs) = Frame msg True # message_events msgs"

text \<open>What the receive loop makes of one message: its work items and its warnings.\<close>

definition message_tasks :: "byte list list \<Rightarrow> ImageTask list" where
  "message_tasks frames =
     (if length frames = 2 then [\<lparr>filename = frames ! 0, img_buffer = frames ! 1\<rparr>] else [])"

definition message_warnings :: "byte list list \<Rightarrow> log_line list" where
  "message_warnings frames =
     (if length frames = 1 then [Extractor_expected_2_got_1]
      else if 2 < length frames then [Extractor_received_more_than_2]
      else [])"

subsection \<open>A stand-in for OpenCV\<close>

text \<open>
  A concrete \<open>opencv\<close> on which the worker can be run: an image is its bytes,
  \<open>imdecode\<close> gives the empty matrix for the empty buffer, and the detector throws on
  an image whose first byte is 0 and finds one fixed keypoint in any other.
\<close>

definition stub_detect :: "unit \<Rightarrow> byte list \<Rightarrow> exn + KeyPoint list" where
  "stub_detect sift gray =
     (case gray of
        [] \<Rightarrow> Inr []
      | b # bs \<Rightarrow>
          if b = 0 then Inl (cv_Exception ''detect failed'')
          else Inr [\<lparr>pt_x = 0x3F800000, pt_y = 0x40000000, size_kp = 0x40400000,
                     angle = 0xBF800000, response = 0x3DCCCCCD, octave = 0x00010203,
                     class_id = -1\<rparr>])"

definition stub_cv :: "(byte list, unit) opencv" where
  "stub_cv =
     \<lparr>SIFT_create = Inr (),
      imdecode = (\<lambda>buf. Inr buf),
      Mat_empty = (\<lambda>m. m = []),
      cvtColor = (\<lambda>m. Inr m),
      detect = stub_detect\<rparr>"

section \<open>Object representations: lemmas\<close>

lemma le_word_le_bytes: "le_word (le_bytes w) = w"
  unfolding le_bytes_def
  apply simp
  apply (rule bit_word_eqI)
  subgoal for n
    apply (cases "n < 8"; cases "n < 16"; cases "n < 24")
           apply (auto simp: bit_simps)
    done
  done

lemma le_bytes_le_word: "le_bytes (le_word [b0, b1, b2, b3]) = [b0, b1, b2, b3]"
  unfolding le_bytes_def
  apply simp
  apply (intro conjI; rule bit_word_eqI)
     apply (auto simp: bit_simps dest: bit_imp_le_length)
  done

lemma length_4_conv: "length bs = 4 \<longleftrightarrow> (\<exists>b0 b1 b2 b3. bs = [b0, b1, b2, b3])"
  by (auto simp: length_Suc_conv numeral_eq_Suc)

lemma length_le_bytes: "length (le_bytes w) = 4"
  by (simp add: le_bytes_def)

lemma length_object_repr: "length (object_repr h w) = 4"
  by (cases h) (simp_all add: object_repr_def length_le_bytes)

lemma object_value_repr: "object_value h (object_repr h w) = w"
  by (cases h) (simp_all add: object_repr_def object_value_def le_word_le_bytes)

lemma object_repr_value:
  assumes "length bs = 4"
  shows "object_repr h (object_value h bs) = bs"
proof -
  from assms obtain b0 b1 b2 b3 where bs: "bs = [b0, b1, b2, b3]"
    by (auto simp: length_4_conv)
  show ?thesis
    by (cases h)
      (simp_all add: object_repr_def object_value_def bs le_bytes_le_word del: le_word.simps)
qed

section \<open>The codec: lemmas\<close>

lemma SIZEOF_28: "SIZEOF_SERIALIZED_KEYPOINT = 28"
  by (simp add: SIZEOF_SERIALIZED_KEYPOINT_def sizeof_float_def sizeof_int_def)

lemma length_record_bytes: "length (record_bytes h kp) = 28"
  by (simp add: record_bytes_def length_object_repr)

lemma put_float_at:
  "put_float h v (pre @ zs, length pre) =
     ((pre @ object_repr h v) @ drop 4 zs, length (pre @ object_repr h v))"
  by (simp add: put_float_def memcpy_to_def sizeof_float_def length_object_repr)

lemma put_int_at:
  "put_int h v (pre @ zs, length pre) =
     ((pre @ object_repr h v) @ drop 4 zs, length (pre @ object_repr h v))"
  by (simp add: put_int_def memcpy_to_def sizeof_int_def length_object_repr)

lemma serialize_body_at:
  "serialize_body h kp (pre @ zs, length pre) =
     ((pre @ record_bytes h kp) @ drop 28 zs, length (pre @ record_bytes h kp))"
proof -
  note p = put_float_at put_int_at
  have "serialize_body h kp (pre @ zs, length pre) =
      put_int h (class_id kp) (put_int h (octave kp) (put_float h (response kp)
        (put_float h (angle kp) (put_float h (size_kp kp) (put_float h (pt_y kp)
          (put_float h (pt_x kp) (pre @ zs, length pre)))))))"
    by (simp only: serialize_body_def Let_def)
  also have "\<dots> = ((pre @ record_bytes h kp) @ drop 28 zs, length (pre @ record_bytes h kp))"
    by (simp only: p) (simp add: record_bytes_def)
  finally show ?thesis .
qed

lemma fold_serialize_body:
  "fold (serialize_body h) kps (pre @ zs, length pre) =
     (pre @ concat (map (record_bytes h) kps) @ drop (28 * length kps) zs,
      length pre + 28 * length kps)"
proof (induction kps arbitrary: pre zs)
  case Nil
  then show ?case by simp
next
  case (Cons kp kps)
  have "fold (serialize_body h) (kp # kps) (pre @ zs, length pre) =
        fold (serialize_body h) kps
          ((pre @ record_bytes h kp) @ drop 28 zs, length (pre @ record_bytes h kp))"
    by (simp only: fold_simps serialize_body_at)
  also have "\<dots> = ((pre @ record_bytes h kp) @ concat (map (record_bytes h) kps) @
                     drop (28 * length kps) (drop 28 zs),
                   length (pre @ record_bytes h kp) + 28 * length kps)"
    by (rule Cons.IH)
  finally show ?case
    by (simp add: length_record_bytes add.commute)
qed

lemma serialize_keypoints_concat:
  "serialize_keypoints h kps = concat (map (record_bytes h) kps)"
  using fold_serialize_body [of h kps "[]" "replicate (length kps * 28) 0"]
  by (simp add: serialize_keypoints_def SIZEOF_28 mult.commute)

lemma memcpy_from_chunk:
  "k + n \<le> 28 \<Longrightarrow> memcpy_from data (28 * i + k) n = memcpy_from (chunk_at data i) k n"
  by (simp add: memcpy_from_def chunk_at_def SIZEOF_28 drop_take add.commute mult.commute min_def)

lemma KeyPoint_update_all:
  "(r :: KeyPoint)\<lparr>pt_x := a, pt_y := b, size_kp := c, angle := d, response := e,
      octave := f, class_id := g\<rparr> =
   \<lparr>pt_x = a, pt_y = b, size_kp = c, angle = d, response = e, octave = f, class_id = g\<rparr>"
  by (cases r) simp

lemma deserialize_body_at:
  "deserialize_body h data i (kps, 28 * i) =
     (kps[i := record_of_bytes h (chunk_at data i)], 28 * Suc i)"
proof -
  have m: "\<And>k. k + 4 \<le> 28 \<Longrightarrow>
      memcpy_from data (28 * i + k) 4 = memcpy_from (chunk_at data i) k 4"
    by (rule memcpy_from_chunk)
  have m0: "memcpy_from data (28 * i) 4 = memcpy_from (chunk_at data i) 0 4"
    using m [of 0] by simp
  show ?thesis
    by (simp add: deserialize_body_def get_float_def get_int_def sizeof_float_def
        sizeof_int_def record_of_bytes_def m m0 add.assoc KeyPoint_update_all)
qed

lemma fold_deserialize_body:
  "n \<le> num \<Longrightarrow>
   fold (deserialize_body h data) [0..<n] (replicate num d, 0) =
     (map (\<lambda>i. record_of_bytes h (chunk_at data i)) [0..<n] @ replicate (num - n) d, 28 * n)"
proof (induction n)
  case 0
  then show ?case by simp
next
  case (Suc n)
  then have n: "n < num" by simp
  then have r: "replicate (num - n) d = d # replicate (num - Suc n) d"
    by (simp add: Suc_diff_Suc flip: replicate_Suc)
  show ?case
    using Suc.IH n
    by (simp add: deserialize_body_at list_update_append r del: replicate_Suc)
qed

lemma deserialize_keypoints_map:
  "length data mod 28 = 0 \<Longrightarrow>
   deserialize_keypoints h data =
     Inr (map (\<lambda>i. record_of_bytes h (chunk_at data i)) [0..<length data div 28])"
  using fold_deserialize_body [of "length data div 28" "length data div 28" h data KeyPoint_default]
  by (simp add: deserialize_keypoints_def SIZEOF_28)

lemma record_of_bytes_record_bytes: "record_of_bytes h (record_bytes h kp) = kp"
  by (simp add: record_of_bytes_def record_bytes_def memcpy_from_def length_object_repr
      object_value_repr)

lemma take_drop_step: "take 4 (drop k bs) @ drop (k + 4) bs = drop k bs"
  using append_take_drop_id [of 4 "drop k bs"] by (simp add: add.commute)

lemma record_bytes_record_of_bytes:
  assumes "length bs = 28"
  shows "record_bytes h (record_of_bytes h bs) = bs"
proof -
  have l: "\<And>k. k + 4 \<le> 28 \<Longrightarrow> length (memcpy_from bs k 4) = 4"
    using assms by (simp add: memcpy_from_def)
  have "record_bytes h (record_of_bytes h bs) =
      memcpy_from bs 0 4 @ memcpy_from bs 4 4 @ memcpy_from bs 8 4 @ memcpy_from bs 12 4 @
      memcpy_from bs 16 4 @ memcpy_from bs 20 4 @ memcpy_from bs 24 4"
    by (simp add: record_bytes_def record_of_bytes_def object_repr_value l)
  also have "\<dots> = bs"
    using assms take_drop_step [of 0 bs] take_drop_step [of 4 bs] take_drop_step [of 8 bs]
      take_drop_step [of 12 bs] take_drop_step [of 16 bs] take_drop_step [of 20 bs]
    by (simp add: memcpy_from_def)
  finally show ?thesis .
qed

lemma chunk_at_concat:
  "i < length kps \<Longrightarrow> chunk_at (concat (map (record_bytes h) kps)) i = record_bytes h (kps ! i)"
proof (induction kps arbitrary: i)
  case Nil
  then show ?case by simp
next
  case (Cons kp kps)
  show ?case
  proof (cases i)
    case 0
    then show ?thesis
      by (simp add: chunk_at_def memcpy_from_def SIZEOF_28 length_record_bytes)
  next
    case (Suc j)
    with Cons.prems have "j < length kps" by simp
    from Cons.IH [OF this] show ?thesis
      by (simp add: Suc chunk_at_def memcpy_from_def SIZEOF_28 length_record_bytes)
  qed
qed

lemma concat_chunks:
  "28 * n \<le> length data \<Longrightarrow> concat (map (chunk_at data) [0..<n]) = take (28 * n) data"
proof (induction n)
  case 0
  then show ?case by simp
next
  case (Suc n)
  then have "concat (map (chunk_at data) [0..<n]) = take (28 * n) data" by simp
  moreover have "chunk_at data n = take 28 (drop (28 * n) data)"
    by (simp add: chunk_at_def memcpy_from_def SIZEOF_28 mult.commute)
  moreover have "28 * Suc n = 28 * n + 28" by simp
  ultimately show ?case
    by (simp only: upt_Suc_append [OF le0] map_append concat_append list.map concat.simps
        append_Nil2 take_add)
qed

section \<open>The threads of the extractor: lemmas\<close>

lemma worker_loop_append:
  "worker_loop cv h sift worker_id before s = (None, [], s1) \<Longrightarrow>
   worker_loop cv h sift worker_id (before @ rest) s = worker_loop cv h sift worker_id rest s1"
proof (induction before arbitrary: s)
  case Nil
  then show ?case by simp
next
  case (Cons task before)
  then show ?case
    by (cases "process_task cv h sift worker_id task s") simp_all
qed

lemma send_ok:
  "send_error p = None \<Longrightarrow> send p msg flags = (None, p\<lparr>wire := wire p @ [(msg, flags)]\<rparr>)"
  by (simp add: send_def)

lemma send_result_ok:
  assumes "send_error p = None"
  shows "send_result p r = (None, p\<lparr>wire := wire p @ result_frames r\<rparr>)"
  using assms by (simp add: send_result_def send_ok result_frames_def)

lemma sender_loop_ok:
  "send_error p = None \<Longrightarrow>
   sender_loop results p = (None, [], p\<lparr>wire := wire p @ concat (map result_frames results)\<rparr>)"
proof (induction results arbitrary: p)
  case Nil
  then show ?case by simp
next
  case (Cons r results)
  have "send_error (p\<lparr>wire := wire p @ result_frames r\<rparr>) = None"
    using Cons.prems by simp
  from Cons.IH [OF this] Cons.prems show ?case
    by (simp add: send_result_ok)
qed

lemma flush_message:
  "flush \<lparr>sub_pending = message_events (f # fs) @ rest, sub_rcvmore = True,
          work_queue = q, main_log = l\<rparr> =
     \<lparr>sub_pending = rest, sub_rcvmore = False, work_queue = q, main_log = l\<rparr>"
proof (induction fs arbitrary: f)
  case Nil
  show ?case
    by (subst flush.simps, simp add: recv_def, subst flush.simps, simp)
next
  case (Cons g gs)
  show ?case
    by (subst flush.simps) (simp add: recv_def Cons.IH)
qed

lemma message_tasks_simps:
  "message_tasks [a] = []"
  "message_tasks [a, b] = [\<lparr>filename = a, img_buffer = b\<rparr>]"
  "message_tasks (a # b # c # cs) = []"
  by (simp_all add: message_tasks_def)

lemma message_warnings_simps:
  "message_warnings [a] = [Extractor_expected_2_got_1]"
  "message_warnings [a, b] = []"
  "message_warnings (a # b # c # cs) = [Extractor_received_more_than_2]"
  by (simp_all add: message_warnings_def)

lemma main_loop_message:
  assumes "frames \<noteq> []"
  shows "main_loop \<lparr>sub_pending = message_events frames @ rest, sub_rcvmore = r,
                    work_queue = q, main_log = l\<rparr> =
         main_loop \<lparr>sub_pending = rest, sub_rcvmore = False,
                    work_queue = q @ message_tasks frames,
                    main_log = l @ message_warnings frames\<rparr>"
proof -
  consider a where "frames = [a]" | a b where "frames = [a, b]"
    | a b c cs where "frames = a # b # c # cs"
  proof (cases frames)
    case Nil
    with assms show ?thesis by simp
  next
    case c1: (Cons a as)
    show ?thesis
    proof (cases as)
      case Nil
      with c1 that(1) show ?thesis by simp
    next
      case c2: (Cons b bs)
      show ?thesis
      proof (cases bs)
        case Nil
        with c1 c2 that(2) show ?thesis by simp
      next
        case (Cons c cs)
        with c1 c2 that(3) show ?thesis by simp
      qed
    qed
  qed
  then show ?thesis
  proof cases
    case 1
    show ?thesis
      unfolding 1 message_tasks_simps message_warnings_simps
      by (subst main_loop.simps) (simp add: recv_def)
  next
    case 2
    show ?thesis
      unfolding 2 message_tasks_simps message_warnings_simps
      by (subst main_loop.simps) (simp add: recv_def SafeQueue_push_def)
  next
    case 3
    show ?thesis
      unfolding 3 message_tasks_simps message_warnings_simps
      by (subst main_loop.simps) (simp add: recv_def flush_message)
  qed
qed

section \<open>The codec: claims\<close>

text \<open>
  In the five theorems of this section a \<open>float\<close> or \<open>int\<close> field stands for its four
  bytes, \<open>h\<close> is the byte order of the host, the same for the encoder and the decoder,
  and \<open>keypoints.size() * 28\<close> is taken not to overflow \<open>size_t\<close>.
\<close>

text \<open>
  Claim C6.  \<open>serialize_keypoints\<close> returns the records in input order, each as its 28
  bytes (five four-byte floats, then two four-byte ints, as \<open>record_bytes\<close> lists them),
  with nothing before, between or after them; the buffer has 28 bytes for each record,
  and none for the empty sequence.
\<close>

theorem serialize_keypoints_layout:
  "serialize_keypoints h keypoints = concat (map (record_bytes h) keypoints) \<and>
   length (serialize_keypoints h keypoints) = 28 * length keypoints \<and>
   serialize_keypoints h [] = []"
proof -
  have "length (concat (map (record_bytes h) keypoints)) = 28 * length keypoints"
    by (induction keypoints) (simp_all add: length_record_bytes)
  then show ?thesis
    by (simp add: serialize_keypoints_concat)
qed

text \<open>
  One record on a little-endian host: \<open>(1.0, 2.0)\<close>, size \<open>3.0\<close>, angle \<open>-1.0\<close>,
  response \<open>0.1\<close>, octave \<open>0x00010203\<close>, class_id \<open>-1\<close>.
\<close>

theorem serialize_keypoints_layout_witness:
  "serialize_keypoints LittleEndian
     [\<lparr>pt_x = 0x3F800000, pt_y = 0x40000000, size_kp = 0x40400000, angle = 0xBF800000,
       response = 0x3DCCCCCD, octave = 0x00010203, class_id = -1\<rparr>] =
     [0x00, 0x00, 0x80, 0x3F,  0x00, 0x00, 0x00, 0x40,  0x00, 0x00, 0x40, 0x40,
      0x00, 0x00, 0x80, 0xBF,  0xCD, 0xCC, 0xCC, 0x3D,  0x03, 0x02, 0x01, 0x00,
      0xFF, 0xFF, 0xFF, 0xFF]"
proof -
  have "record_bytes LittleEndian
     \<lparr>pt_x = 0x3F800000, pt_y = 0x40000000, size_kp = 0x40400000, angle = 0xBF800000,
       response = 0x3DCCCCCD, octave = 0x00010203, class_id = -1\<rparr> =
     [0x00, 0x00, 0x80, 0x3F,  0x00, 0x00, 0x00, 0x40,  0x00, 0x00, 0x40, 0x40,
      0x00, 0x00, 0x80, 0xBF,  0xCD, 0xCC, 0xCC, 0x3D,  0x03, 0x02, 0x01, 0x00,
      0xFF, 0xFF, 0xFF, 0xFF]"
    by code_simp
  with serialize_keypoints_layout [of LittleEndian
     "[\<lparr>pt_x = 0x3F800000, pt_y = 0x40000000, size_kp = 0x40400000, angle = 0xBF800000,
       response = 0x3DCCCCCD, octave = 0x00010203, class_id = -1\<rparr>]"]
  show ?thesis by simp
qed

text \<open>
  Claim C1.  Decoding what \<open>serialize_keypoints\<close> produced succeeds and gives back the
  same sequence of records, every field of every record included.
\<close>

theorem deserialize_serialize:
  "deserialize_keypoints h (serialize_keypoints h keypoints) = Inr keypoints"
proof -
  let ?b = "concat (map (record_bytes h) keypoints)"
  have len: "length ?b = 28 * length keypoints"
    by (induction keypoints) (simp_all add: length_record_bytes)
  have "map (\<lambda>i. record_of_bytes h (chunk_at ?b i)) [0..<length keypoints] =
        map (\<lambda>i. keypoints ! i) [0..<length keypoints]"
    by (rule map_cong) (simp_all add: chunk_at_concat record_of_bytes_record_bytes)
  also have "\<dots> = keypoints"
    by (rule map_nth)
  finally show ?thesis
    using deserialize_keypoints_map [of ?b h] len
    by (simp add: serialize_keypoints_concat)
qed

theorem deserialize_serialize_witness:
  "deserialize_keypoints BigEndian
     (serialize_keypoints BigEndian
        [\<lparr>pt_x = 0x3F800000, pt_y = 0x40000000, size_kp = 0x40400000, angle = 0xBF800000,
       response = 0x3DCCCCCD, octave = 0x00010203, class_id = -1\<rparr>,
         \<lparr>pt_x = 0x41200000, pt_y = 0x41A00000, size_kp = 0x3FC00000, angle = 0x42B40000,
       response = 0x3C23D70A, octave = 0x00FF0101, class_id = 7\<rparr>]) =
   Inr [\<lparr>pt_x = 0x3F800000, pt_y = 0x40000000, size_kp = 0x40400000, angle = 0xBF800000,
       response = 0x3DCCCCCD, octave = 0x00010203, class_id = -1\<rparr>,
        \<lparr>pt_x = 0x41200000, pt_y = 0x41A00000, size_kp = 0x3FC00000, angle = 0x42B40000,
       response = 0x3C23D70A, octave = 0x00FF0101, class_id = 7\<rparr>]"
  by (rule deserialize_serialize)

text \<open>
  Claim C9.  A buffer whose length is a multiple of 28 decodes, and encoding the decoded
  records gives the buffer back, byte for byte.
\<close>

theorem serialize_deserialize:
  assumes "length b mod 28 = 0"
  shows "\<exists>keypoints. deserialize_keypoints h b = Inr keypoints \<and>
           serialize_keypoints h keypoints = b"
proof -
  let ?n = "length b div 28"
  from assms have len: "28 * ?n = length b" by auto
  have c: "\<And>i. i < ?n \<Longrightarrow> length (chunk_at b i) = 28"
  proof -
    fix i assume "i < ?n"
    then have "28 * i + 28 \<le> 28 * ?n" by simp
    with len show "length (chunk_at b i) = 28"
      by (simp add: chunk_at_def memcpy_from_def SIZEOF_28 mult.commute)
  qed
  have "concat (map (record_bytes h) (map (\<lambda>i. record_of_bytes h (chunk_at b i)) [0..<?n])) =
        concat (map (chunk_at b) [0..<?n])"
  proof -
    have "map (\<lambda>i. record_bytes h (record_of_bytes h (chunk_at b i))) [0..<?n] =
          map (chunk_at b) [0..<?n]"
      by (rule map_cong) (simp_all add: c record_bytes_record_of_bytes)
    then show ?thesis
      by (simp only: map_map o_def)
  qed
  also have "\<dots> = b"
    using concat_chunks [of ?n b] len by simp
  finally show ?thesis
    using deserialize_keypoints_map [OF assms, of h]
    by (simp add: serialize_keypoints_concat)
qed

theorem serialize_deserialize_witness:
  "length ([0x00, 0x00, 0x80, 0x3F,  0x00, 0x00, 0x00, 0x40,  0x00, 0x00, 0x40, 0x40,
      0x00, 0x00, 0x80, 0xBF,  0xCD, 0xCC, 0xCC, 0x3D,  0x03, 0x02, 0x01, 0x00,
      0xFF, 0xFF, 0xFF, 0xFF] :: byte list) mod 28 = 0 \<and>
   (\<exists>keypoints.
      deserialize_keypoints LittleEndian
        [0x00, 0x00, 0x80, 0x3F,  0x00, 0x00, 0x00, 0x40,  0x00, 0x00, 0x40, 0x40,
      0x00, 0x00, 0x80, 0xBF,  0xCD, 0xCC, 0xCC, 0x3D,  0x03, 0x02, 0x01, 0x00,
      0xFF, 0xFF, 0xFF, 0xFF] = Inr keypoints \<and>
      serialize_keypoints LittleEndian keypoints =
        [0x00, 0x00, 0x80, 0x3F,  0x00, 0x00, 0x00, 0x40,  0x00, 0x00, 0x40, 0x40,
      0x00, 0x00, 0x80, 0xBF,  0xCD, 0xCC, 0xCC, 0x3D,  0x03, 0x02, 0x01, 0x00,
      0xFF, 0xFF, 0xFF, 0xFF])"
proof -
  have l: "length ([0x00, 0x00, 0x80, 0x3F,  0x00, 0x00, 0x00, 0x40,  0x00, 0x00, 0x40, 0x40,
      0x00, 0x00, 0x80, 0xBF,  0xCD, 0xCC, 0xCC, 0x3D,  0x03, 0x02, 0x01, 0x00,
      0xFF, 0xFF, 0xFF, 0xFF] :: byte list) mod 28 = 0"
    by simp
  from l serialize_deserialize [OF l, of LittleEndian] show ?thesis
    by (rule conjI)
qed

text \<open>
  Claim C10.  The encoding of a concatenation is the concatenation of the encodings.
\<close>

theorem serialize_keypoints_append:
  "serialize_keypoints h (xs @ ys) = serialize_keypoints h xs @ serialize_keypoints h ys"
  by (simp add: serialize_keypoints_concat)

theorem serialize_keypoints_append_witness:
  "serialize_keypoints LittleEndian
     ([\<lparr>pt_x = 0x3F800000, pt_y = 0x40000000, size_kp = 0x40400000, angle = 0xBF800000,
       response = 0x3DCCCCCD, octave = 0x00010203, class_id = -1\<rparr>] @
      [\<lparr>pt_x = 0x41200000, pt_y = 0x41A00000, size_kp = 0x3FC00000, angle = 0x42B40000,
       response = 0x3C23D70A, octave = 0x00FF0101, class_id = 7\<rparr>]) =
   serialize_keypoints LittleEndian
     [\<lparr>pt_x = 0x3F800000, pt_y = 0x40000000, size_kp = 0x40400000, angle = 0xBF800000,
       response = 0x3DCCCCCD, octave = 0x00010203, class_id = -1\<rparr>] @
   serialize_keypoints LittleEndian
     [\<lparr>pt_x = 0x41200000, pt_y = 0x41A00000, size_kp = 0x3FC00000, angle = 0x42B40000,
       response = 0x3C23D70A, octave = 0x00FF0101, class_id = 7\<rparr>]"
  by (rule serialize_keypoints_append)

text \<open>
  Claim C5.  \<open>deserialize_keypoints\<close> fails exactly on the buffers whose length is not a
  multiple of 28, with the \<open>std::runtime_error\<close> of the source (the spec's
  InvalidEncodingError).  On every other buffer it returns \<open>length b div 28\<close> records,
  the \<open>i\<close>-th read from the \<open>i\<close>-th 28 bytes.
\<close>

theorem deserialize_keypoints_cases:
  "((\<exists>e. deserialize_keypoints h b = Inl e) \<longleftrightarrow> length b mod 28 \<noteq> 0) \<and>
   (length b mod 28 \<noteq> 0 \<longrightarrow>
      deserialize_keypoints h b =
        Inl (runtime_error ''Invalid data size for keypoint deserialization.'')) \<and>
   (length b mod 28 = 0 \<longrightarrow>
      deserialize_keypoints h b =
        Inr (map (\<lambda>i. record_of_bytes h (chunk_at b i)) [0..<length b div 28]) \<and>
      length (map (\<lambda>i. record_of_bytes h (chunk_at b i)) [0..<length b div 28]) =
        length b div 28)"
proof (cases "length b mod 28 = 0")
  case True
  then show ?thesis
    by (simp add: deserialize_keypoints_map)
next
  case False
  then show ?thesis
    by (simp add: deserialize_keypoints_def SIZEOF_28)
qed

theorem deserialize_keypoints_cases_witness:
  "deserialize_keypoints LittleEndian [1, 2, 3] =
     Inl (runtime_error ''Invalid data size for keypoint deserialization.'') \<and>
   deserialize_keypoints LittleEndian
     [0x00, 0x00, 0x80, 0x3F,  0x00, 0x00, 0x00, 0x40,  0x00, 0x00, 0x40, 0x40,
      0x00, 0x00, 0x80, 0xBF,  0xCD, 0xCC, 0xCC, 0x3D,  0x03, 0x02, 0x01, 0x00,
      0xFF, 0xFF, 0xFF, 0xFF] =
     Inr [\<lparr>pt_x = 0x3F800000, pt_y = 0x40000000, size_kp = 0x40400000, angle = 0xBF800000,
       response = 0x3DCCCCCD, octave = 0x00010203, class_id = -1\<rparr>]"
proof -
  have "map (\<lambda>i. record_of_bytes LittleEndian (chunk_at
     [0x00, 0x00, 0x80, 0x3F,  0x00, 0x00, 0x00, 0x40,  0x00, 0x00, 0x40, 0x40,
      0x00, 0x00, 0x80, 0xBF,  0xCD, 0xCC, 0xCC, 0x3D,  0x03, 0x02, 0x01, 0x00,
      0xFF, 0xFF, 0xFF, 0xFF] i))
     [0..<length ([0x00, 0x00, 0x80, 0x3F,  0x00, 0x00, 0x00, 0x40,  0x00, 0x00, 0x40, 0x40,
      0x00, 0x00, 0x80, 0xBF,  0xCD, 0xCC, 0xCC, 0x3D,  0x03, 0x02, 0x01, 0x00,
      0xFF, 0xFF, 0xFF, 0xFF] :: byte list) div 28] =
     [\<lparr>pt_x = 0x3F800000, pt_y = 0x40000000, size_kp = 0x40400000, angle = 0xBF800000,
       response = 0x3DCCCCCD, octave = 0x00010203, class_id = -1\<rparr>]"
    by code_simp
  with deserialize_keypoints_cases [of LittleEndian "[1, 2, 3]"]
    deserialize_keypoints_cases [of LittleEndian
     "[0x00, 0x00, 0x80, 0x3F,  0x00, 0x00, 0x00, 0x40,  0x00, 0x00, 0x40, 0x40,
      0x00, 0x00, 0x80, 0xBF,  0xCD, 0xCC, 0xCC, 0x3D,  0x03, 0x02, 0x01, 0x00,
      0xFF, 0xFF, 0xFF, 0xFF]"]
  show ?thesis by simp
qed

section \<open>The threads of the extractor: claims\<close>

text \<open>
  Each thread is run on a finite input: the events on the subscriber socket, the tasks a
  worker pops, the results the sender pops.  A thread that has used up its input is
  blocked in \<open>recv\<close> or \<open>pop\<close>, which is how its loop goes on.
\<close>

text \<open>
  Claim C3.  The socket delivers whole messages, each of one frame or more, and every
  \<open>recv\<close> returns a frame.  Then the receive loop reads all of them, whatever their
  frame counts, and pushes one \<open>ImageTask\<close> for each message of exactly two frames, made
  of these two frames, in the order of arrival.  A message of one frame gives the
  warning \<open>expected 2 parts, got 1\<close> and no task; a message of three frames or more
  gives the warning \<open>received >2 parts\<close>, has all its frames read, and gives no task.
\<close>

theorem main_loop_framing:
  assumes "\<forall>frames \<in> set messages. frames \<noteq> []"
  shows "main_loop \<lparr>sub_pending = concat (map message_events messages), sub_rcvmore = r,
                    work_queue = q, main_log = l\<rparr> =
         \<lparr>sub_pending = [], sub_rcvmore = (if messages = [] then r else False),
          work_queue = q @ concat (map message_tasks messages),
          main_log = l @ concat (map message_warnings messages)\<rparr>"
  using assms
proof (induction messages arbitrary: r q l)
  case Nil
  show ?case
    by (subst main_loop.simps) (simp add: recv_def)
next
  case (Cons frames messages)
  then have f: "frames \<noteq> []" and m: "\<forall>frames \<in> set messages. frames \<noteq> []"
    by simp_all
  show ?case
    by (simp add: main_loop_message [OF f] Cons.IH [OF m])
qed

text \<open>Four messages in a row, of one, two, four and two frames.\<close>

theorem main_loop_framing_witness:
  "list_all (\<lambda>frames. frames \<noteq> [])
     [[[1]], [[2], [20]], [[3], [30], [31], [32]], [[4], [40 :: byte]]] \<and>
   main_loop
     \<lparr>sub_pending =
        [Frame [1] False,
         Frame [2] True, Frame [20] False,
         Frame [3] True, Frame [30] True, Frame [31] True, Frame [32] False,
         Frame [4] True, Frame [40] False],
      sub_rcvmore = False, work_queue = [], main_log = []\<rparr> =
     \<lparr>sub_pending = [], sub_rcvmore = False,
      work_queue = [\<lparr>filename = [2], img_buffer = [20]\<rparr>, \<lparr>filename = [4], img_buffer = [40]\<rparr>],
      main_log = [Extractor_expected_2_got_1, Extractor_received_more_than_2]\<rparr>"
proof -
  have h: "\<forall>frames \<in> set [[[1]], [[2], [20]], [[3], [30], [31], [32]], [[4], [40 :: byte]]].
      frames \<noteq> []"
    by simp
  from main_loop_framing [OF h, of False "[]" "[]"] show ?thesis
    by (simp add: message_tasks_def message_warnings_def)
qed

text \<open>
  Claim C7.  When \<open>imdecode\<close> returns an empty matrix for a task, the body of the loop
  prints \<open>Failed to decode\<close> with the worker's id and the file name, pushes nothing on
  the result queue, and the loop goes on with the next task; so does the thread.
\<close>

theorem worker_decode_failure:
  assumes "imdecode cv (img_buffer task) = Inr image_mat" and "Mat_empty cv image_mat"
  shows "process_task cv h sift worker_id task s =
           Inr (s\<lparr>worker_log := worker_log s @
                    [Worker_failed_to_decode worker_id (filename task)]\<rparr>) \<and>
         result_queue (s\<lparr>worker_log := worker_log s @
                    [Worker_failed_to_decode worker_id (filename task)]\<rparr>) = result_queue s \<and>
         worker_loop cv h sift worker_id (task # tasks) s =
           worker_loop cv h sift worker_id tasks
             (s\<lparr>worker_log := worker_log s @
                  [Worker_failed_to_decode worker_id (filename task)]\<rparr>) \<and>
         (SIFT_create cv = Inr sift \<longrightarrow>
            worker_thread cv h worker_id (task # tasks) s =
              worker_thread cv h worker_id tasks
                (s\<lparr>worker_log := worker_log s @
                     [Worker_failed_to_decode worker_id (filename task)]\<rparr>))"
  using assms by (simp add: process_task_def worker_thread_def)

theorem worker_decode_failure_witness:
  "imdecode stub_cv (img_buffer \<lparr>filename = [97], img_buffer = []\<rparr>) = Inr [] \<and>
   Mat_empty stub_cv [] \<and>
   SIFT_create stub_cv = Inr () \<and>
   worker_thread stub_cv LittleEndian 0
     [\<lparr>filename = [97], img_buffer = []\<rparr>, \<lparr>filename = [98], img_buffer = [1]\<rparr>]
     \<lparr>result_queue = [], worker_log = []\<rparr> =
   (Blocked, [],
    \<lparr>result_queue =
       [\<lparr>filename = [98], img_buffer = [1],
         keypoints_buffer =
           [0x00, 0x00, 0x80, 0x3F,  0x00, 0x00, 0x00, 0x40,  0x00, 0x00, 0x40, 0x40,
            0x00, 0x00, 0x80, 0xBF,  0xCD, 0xCC, 0xCC, 0x3D,  0x03, 0x02, 0x01, 0x00,
            0xFF, 0xFF, 0xFF, 0xFF]\<rparr>],
     worker_log = [Worker_failed_to_decode 0 [97], Worker_processed 0 1]\<rparr>)"
proof -
  have a: "imdecode stub_cv (img_buffer \<lparr>filename = [97], img_buffer = []\<rparr>) = Inr []"
    and b: "Mat_empty stub_cv []" and c: "SIFT_create stub_cv = Inr ()"
    by (simp_all add: stub_cv_def)
  have e: "worker_thread stub_cv LittleEndian 0 [\<lparr>filename = [98], img_buffer = [1]\<rparr>]
     \<lparr>result_queue = [], worker_log = [Worker_failed_to_decode 0 [97]]\<rparr> =
   (Blocked, [],
    \<lparr>result_queue =
       [\<lparr>filename = [98], img_buffer = [1],
         keypoints_buffer =
           [0x00, 0x00, 0x80, 0x3F,  0x00, 0x00, 0x00, 0x40,  0x00, 0x00, 0x40, 0x40,
            0x00, 0x00, 0x80, 0xBF,  0xCD, 0xCC, 0xCC, 0x3D,  0x03, 0x02, 0x01, 0x00,
            0xFF, 0xFF, 0xFF, 0xFF]\<rparr>],
     worker_log = [Worker_failed_to_decode 0 [97], Worker_processed 0 1]\<rparr>)"
    by code_simp
  from worker_decode_failure [OF a b, of LittleEndian "()" 0
      "\<lparr>result_queue = [], worker_log = []\<rparr>" "[\<lparr>filename = [98], img_buffer = [1]\<rparr>]"]
    a b c e
  show ?thesis by simp
qed

text \<open>
  Claim C2, as the spec states it, fails.  The \<open>try\<close> block of \<open>worker_thread\<close> encloses
  the \<open>while\<close> loop, so an exception thrown for one task leaves the loop for good.  Here
  the detector throws on the first of two tasks: the worker prints the error and
  returns, and the second task is still in the work queue.  Had the worker resumed its
  loop, it would have gone on as it does from the second task alone.
\<close>

theorem worker_thread_exception_counterexample:
  "process_task stub_cv LittleEndian () 0 \<lparr>filename = [97], img_buffer = [0]\<rparr>
     \<lparr>result_queue = [], worker_log = []\<rparr> = Inl (cv_Exception ''detect failed'') \<and>
   worker_thread stub_cv LittleEndian 0
     [\<lparr>filename = [97], img_buffer = [0]\<rparr>, \<lparr>filename = [98], img_buffer = [1]\<rparr>]
     \<lparr>result_queue = [], worker_log = []\<rparr> =
   (Returned, [\<lparr>filename = [98], img_buffer = [1]\<rparr>],
    \<lparr>result_queue = [], worker_log = [Worker_error 0 ''detect failed'']\<rparr>) \<and>
   worker_thread stub_cv LittleEndian 0
     [\<lparr>filename = [97], img_buffer = [0]\<rparr>, \<lparr>filename = [98], img_buffer = [1]\<rparr>]
     \<lparr>result_queue = [], worker_log = []\<rparr> \<noteq>
   worker_thread stub_cv LittleEndian 0
     [\<lparr>filename = [98], img_buffer = [1]\<rparr>]
     \<lparr>result_queue = [], worker_log = [Worker_error 0 ''detect failed'']\<rparr>"
proof -
  have a: "process_task stub_cv LittleEndian () 0 \<lparr>filename = [97], img_buffer = [0]\<rparr>
     \<lparr>result_queue = [], worker_log = []\<rparr> = Inl (cv_Exception ''detect failed'')"
    by (simp add: process_task_def stub_cv_def stub_detect_def)
  have b: "worker_thread stub_cv LittleEndian 0
     [\<lparr>filename = [97], img_buffer = [0]\<rparr>, \<lparr>filename = [98], img_buffer = [1]\<rparr>]
     \<lparr>result_queue = [], worker_log = []\<rparr> =
   (Returned, [\<lparr>filename = [98], img_buffer = [1]\<rparr>],
    \<lparr>result_queue = [], worker_log = [Worker_error 0 ''detect failed'']\<rparr>)"
    by code_simp
  have c: "fst (worker_thread stub_cv LittleEndian 0
     [\<lparr>filename = [98], img_buffer = [1]\<rparr>]
     \<lparr>result_queue = [], worker_log = [Worker_error 0 ''detect failed'']\<rparr>) = Blocked"
    by (simp add: worker_thread_def process_task_def stub_cv_def stub_detect_def Let_def)
  from c have "worker_thread stub_cv LittleEndian 0
     [\<lparr>filename = [97], img_buffer = [0]\<rparr>, \<lparr>filename = [98], img_buffer = [1]\<rparr>]
     \<lparr>result_queue = [], worker_log = []\<rparr> \<noteq>
   worker_thread stub_cv LittleEndian 0
     [\<lparr>filename = [98], img_buffer = [1]\<rparr>]
     \<lparr>result_queue = [], worker_log = [Worker_error 0 ''detect failed'']\<rparr>"
    unfolding b by (metis fst_conv thread_status.distinct(1))
  with a b show ?thesis by simp
qed

text \<open>
  Claim C2, amended.  When the processing of a task throws (in \<open>imdecode\<close>, \<open>cvtColor\<close>
  or \<open>detect\<close>), the exception is caught by the one handler of \<open>worker_thread\<close>, outside
  the loop, and printed with the worker's id; the thread function then returns.  What
  the worker pushed and printed for earlier tasks stays; nothing is pushed for the
  failing task; the later tasks are left in the work queue.
\<close>

theorem worker_thread_exception:
  assumes "SIFT_create cv = Inr sift"
    and "worker_loop cv h sift worker_id earlier s = (None, [], s1)"
    and "process_task cv h sift worker_id task s1 = Inl e"
  shows "worker_thread cv h worker_id (earlier @ task # later) s =
           (Returned, later, s1\<lparr>worker_log := worker_log s1 @ [Worker_error worker_id (what e)]\<rparr>)"
  using assms by (simp add: worker_thread_def worker_loop_append)

theorem worker_thread_exception_witness:
  "SIFT_create stub_cv = Inr () \<and>
   worker_loop stub_cv LittleEndian () 3 [\<lparr>filename = [97], img_buffer = []\<rparr>]
     \<lparr>result_queue = [], worker_log = []\<rparr> =
     (None, [], \<lparr>result_queue = [], worker_log = [Worker_failed_to_decode 3 [97]]\<rparr>) \<and>
   process_task stub_cv LittleEndian () 3 \<lparr>filename = [98], img_buffer = [0]\<rparr>
     \<lparr>result_queue = [], worker_log = [Worker_failed_to_decode 3 [97]]\<rparr> =
     Inl (cv_Exception ''detect failed'') \<and>
   worker_thread stub_cv LittleEndian 3
     ([\<lparr>filename = [97], img_buffer = []\<rparr>] @ \<lparr>filename = [98], img_buffer = [0]\<rparr> #
      [\<lparr>filename = [99], img_buffer = [1]\<rparr>])
     \<lparr>result_queue = [], worker_log = []\<rparr> =
     (Returned, [\<lparr>filename = [99], img_buffer = [1]\<rparr>],
      \<lparr>result_queue = [],
       worker_log = [Worker_failed_to_decode 3 [97], Worker_error 3 ''detect failed'']\<rparr>)"
proof -
  have a: "SIFT_create stub_cv = Inr ()"
    by (simp add: stub_cv_def)
  have b: "worker_loop stub_cv LittleEndian () 3 [\<lparr>filename = [97], img_buffer = []\<rparr>]
     \<lparr>result_queue = [], worker_log = []\<rparr> =
     (None, [], \<lparr>result_queue = [], worker_log = [Worker_failed_to_decode 3 [97]]\<rparr>)"
    by (simp add: process_task_def stub_cv_def)
  have c: "process_task stub_cv LittleEndian () 3 \<lparr>filename = [98], img_buffer = [0]\<rparr>
     \<lparr>result_queue = [], worker_log = [Worker_failed_to_decode 3 [97]]\<rparr> =
     Inl (cv_Exception ''detect failed'')"
    by (simp add: process_task_def stub_cv_def stub_detect_def)
  from worker_thread_exception [OF a b c, of "[\<lparr>filename = [99], img_buffer = [1]\<rparr>]"] a b c
  show ?thesis by simp
qed

text \<open>
  Claim C4.  On a publisher that is bound and whose \<open>send\<close> calls do not throw, the
  sender empties the result queue and sends, for each result in turn, exactly three
  frames: the file name with \<open>sndmore\<close>, the image buffer with \<open>sndmore\<close>, the keypoints
  buffer with \<open>none\<close>; the frames of one result are all sent before those of the next.
  The file name and the image buffer of a result are those of the task it was made
  from: whenever the body of the worker's loop ends normally, it has pushed nothing or
  one result that carries the task's own \<open>filename\<close> and \<open>img_buffer\<close>, next to the
  encoding of some keypoints.
\<close>

theorem sender_thread_frames:
  "(bind_error publisher = None \<and> send_error publisher = None \<longrightarrow>
      sender_thread results publisher out =
        (Blocked, [],
         publisher\<lparr>wire := wire publisher @ concat (map result_frames results)\<rparr>,
         out @ [Sender_publishing])) \<and>
   (process_task cv h sift worker_id task s = Inr s' \<longrightarrow>
      result_queue s' = result_queue s \<or>
      (\<exists>keypoints.
         result_queue s' = result_queue s @
           [\<lparr>filename = filename task, img_buffer = img_buffer task,
             keypoints_buffer = serialize_keypoints h keypoints\<rparr>]))"
proof (intro conjI impI)
  assume "bind_error publisher = None \<and> send_error publisher = None"
  then show "sender_thread results publisher out =
        (Blocked, [],
         publisher\<lparr>wire := wire publisher @ concat (map result_frames results)\<rparr>,
         out @ [Sender_publishing])"
    by (simp add: sender_thread_def sender_loop_ok)
next
  assume "process_task cv h sift worker_id task s = Inr s'"
  then show "result_queue s' = result_queue s \<or>
      (\<exists>keypoints.
         result_queue s' = result_queue s @
           [\<lparr>filename = filename task, img_buffer = img_buffer task,
             keypoints_buffer = serialize_keypoints h keypoints\<rparr>])"
    by (auto simp: process_task_def SafeQueue_push_def Let_def split: sum.splits if_splits)
qed

theorem sender_thread_frames_witness:
  "bind_error \<lparr>wire = [], bind_error = None, send_error = None\<rparr> = None \<and>
   send_error \<lparr>wire = [], bind_error = None, send_error = None\<rparr> = None \<and>
   sender_thread
     [\<lparr>filename = [97], img_buffer = [1, 2], keypoints_buffer = []\<rparr>,
      \<lparr>filename = [98], img_buffer = [3], keypoints_buffer = [7, 8]\<rparr>]
     \<lparr>wire = [], bind_error = None, send_error = None\<rparr> [] =
     (Blocked, [],
      \<lparr>wire = [([97], sndmore), ([1, 2], sndmore), ([], none),
               ([98], sndmore), ([3], sndmore), ([7, 8], none)],
       bind_error = None, send_error = None\<rparr>,
      [Sender_publishing]) \<and>
   process_task stub_cv LittleEndian () 0 \<lparr>filename = [97], img_buffer = [1, 2]\<rparr>
     \<lparr>result_queue = [], worker_log = []\<rparr> =
     Inr \<lparr>result_queue =
            [\<lparr>filename = [97], img_buffer = [1, 2],
              keypoints_buffer =
                [0x00, 0x00, 0x80, 0x3F,  0x00, 0x00, 0x00, 0x40,  0x00, 0x00, 0x40, 0x40,
                 0x00, 0x00, 0x80, 0xBF,  0xCD, 0xCC, 0xCC, 0x3D,  0x03, 0x02, 0x01, 0x00,
                 0xFF, 0xFF, 0xFF, 0xFF]\<rparr>],
          worker_log = [Worker_processed 0 1]\<rparr>"
proof -
  have p: "process_task stub_cv LittleEndian () 0 \<lparr>filename = [97], img_buffer = [1, 2]\<rparr>
     \<lparr>result_queue = [], worker_log = []\<rparr> =
     Inr \<lparr>result_queue =
            [\<lparr>filename = [97], img_buffer = [1, 2],
              keypoints_buffer =
                [0x00, 0x00, 0x80, 0x3F,  0x00, 0x00, 0x00, 0x40,  0x00, 0x00, 0x40, 0x40,
                 0x00, 0x00, 0x80, 0xBF,  0xCD, 0xCC, 0xCC, 0x3D,  0x03, 0x02, 0x01, 0x00,
                 0xFF, 0xFF, 0xFF, 0xFF]\<rparr>],
          worker_log = [Worker_processed 0 1]\<rparr>"
    by code_simp
  from sender_thread_frames [of "\<lparr>wire = [], bind_error = None, send_error = None\<rparr>"
      "[\<lparr>filename = [97], img_buffer = [1, 2], keypoints_buffer = []\<rparr>,
        \<lparr>filename = [98], img_buffer = [3], keypoints_buffer = [7, 8]\<rparr>]" "[]"
      stub_cv LittleEndian "()" 0 "\<lparr>filename = [97], img_buffer = [1, 2]\<rparr>"
      "\<lparr>result_queue = [], worker_log = []\<rparr>"] p
  show ?thesis by (simp add: result_frames_def)
qed

end
